theory Spec2Isabelle
  imports Main
begin

section \<open>The oryx logger package (src/logger/logger.go)\<close>

text \<open>
  The package keeps four package-level loggers (Info, Trace, Warn, Error), each a
  \<^verbatim>\<open>*loggerPlus\<close> wrapping a \<^verbatim>\<open>*log.Logger\<close> of the Go standard library, and one
  package-level \<^verbatim>\<open>previousIo io.Closer\<close>. The embedding passes these globals
  explicitly as a record. Every effect on the outside world (bytes handed to a
  writer, a \<^verbatim>\<open>Close()\<close> invoked on a writer) is appended to a trace of events kept
  in the same record, so that order and multiplicity of the effects can be stated.
\<close>

subsection \<open>Values handed to the logger\<close>

text \<open>
  \<^verbatim>\<open>interface{}\<close> arguments: the model has strings and ints, the two kinds of value
  that the package itself creates (\<^verbatim>\<open>fmt.Sprintf\<close> results and \<^verbatim>\<open>os.Getpid()\<close>,
  \<^verbatim>\<open>ctx.Cid()\<close>).
\<close>

datatype any = AString string | AInt int

text \<open>
  \<^verbatim>\<open>type Context interface{}\<close>: the nil interface, a value whose dynamic type has the
  method \<^verbatim>\<open>Cid() int\<close> (the model keeps the int it returns), or any other value.
\<close>

datatype Context = CtxNil | CtxCid int | CtxOther any

subsection \<open>The parts of package fmt that the source calls\<close>

definition digit :: "nat \<Rightarrow> char" where
  "digit d = char_of (48 + d)"

text \<open>Decimal rendering of a non-negative integer, most significant digit first.\<close>

function dec :: "nat \<Rightarrow> string" where
  "dec n = (if n < 10 then [digit n] else dec (n div 10) @ [digit (n mod 10)])"
  by pat_completeness auto
termination
  by (relation "measure (\<lambda>n. n)") auto

definition fmt_int :: "int \<Rightarrow> string" where
  "fmt_int n = (if n < 0 then CHR ''-'' # dec (nat (- n)) else dec (nat n))"

text \<open>The verb \<^verbatim>\<open>%v\<close> (and the default format of Sprintln) on a value.\<close>

fun fmt_v :: "any \<Rightarrow> string" where
  "fmt_v (AString s) = s"
| "fmt_v (AInt n) = fmt_int n"

text \<open>
  \<^verbatim>\<open>fmt.Sprintf\<close> on the formats the source itself writes (\<^verbatim>\<open>"[%v] "\<close> and
  \<^verbatim>\<open>"[%v][%v] "\<close>): literal text and the verb \<^verbatim>\<open>%v\<close>, with one argument for each
  verb. Each \<^verbatim>\<open>%v\<close> consumes the next argument; every other byte is copied.
\<close>

fun Sprintf_v :: "string \<Rightarrow> any list \<Rightarrow> string" where
  "Sprintf_v [] xs = []"
| "Sprintf_v (c # fs) xs =
     (case (c, fs, xs) of
        (CHR ''%'', CHR ''v'' # fs', x # xs') \<Rightarrow> fmt_v x @ Sprintf_v fs' xs'
      | _ \<Rightarrow> c # Sprintf_v fs xs)"

text \<open>
  \<^verbatim>\<open>fmt.Sprintf\<close> on a format supplied by the caller is not interpreted by the model:
  the function from format and arguments to the resulting string is a parameter of
  everything that prints with a caller's format.
\<close>

type_synonym sprintf = "string \<Rightarrow> any list \<Rightarrow> string"

definition newline :: char where
  "newline = CHR 0x0A"

text \<open>
  \<^verbatim>\<open>fmt.Sprintln\<close>: the operands in their default format, a space between every two
  operands, and a newline at the end.
\<close>

fun Sprint_operands :: "any list \<Rightarrow> string" where
  "Sprint_operands [] = []"
| "Sprint_operands [x] = fmt_v x"
| "Sprint_operands (x # y # ys) = fmt_v x @ CHR '' '' # Sprint_operands (y # ys)"

definition Sprintln :: "any list \<Rightarrow> string" where
  "Sprintln a = Sprint_operands a @ [newline]"

subsection \<open>Correlation tags: format and formatf\<close>

text \<open>
  \<^verbatim>\<open>func (v *loggerPlus) format(ctx Context, a ...interface{}) []interface{}\<close>.
  The receiver is not used; \<open>pid\<close> is the value of \<^verbatim>\<open>os.Getpid()\<close>.
\<close>

fun format :: "int \<Rightarrow> Context \<Rightarrow> any list \<Rightarrow> any list" where
  "format pid CtxNil a = AString (Sprintf_v ''[%v] '' [AInt pid]) # a"
| "format pid (CtxCid cid) a = AString (Sprintf_v ''[%v][%v] '' [AInt pid, AInt cid]) # a"
| "format pid (CtxOther x) a = a"

text \<open>
  \<^verbatim>\<open>func (v *loggerPlus) formatf(ctx Context, format string, a ...interface{})
  (string, []interface{})\<close>.
\<close>

fun formatf :: "int \<Rightarrow> Context \<Rightarrow> string \<Rightarrow> any list \<Rightarrow> string \<times> any list" where
  "formatf pid CtxNil f a = (''[%v] '' @ f, AInt pid # a)"
| "formatf pid (CtxCid cid) f a = (''[%v][%v] '' @ f, AInt pid # AInt cid # a)"
| "formatf pid (CtxOther x) f a = (f, a)"

subsection \<open>Writers, and the effects the package has on them\<close>

text \<open>The values of Go's \<^verbatim>\<open>error\<close> interface.\<close>

datatype error = Err string

text \<open>
  Where bytes end up: the process's standard output, nowhere
  (\<^verbatim>\<open>ioutil.Discard\<close>), or a sink of the caller, named by a number.
\<close>

datatype stream = Stdout | Discard | Sink nat

text \<open>
  An \<^verbatim>\<open>io.Writer\<close> value. \<open>closer w = None\<close>: the dynamic type of \<open>w\<close> has no
  \<^verbatim>\<open>Close() error\<close> method, so the assertion \<^verbatim>\<open>w.(io.Closer)\<close> fails;
  \<open>closer w = Some r\<close>: it has one, and calling it returns \<open>r\<close> (\<open>None\<close> is the nil
  error). The nil interface value is not among the writers of the model: the
  package never creates one, and \<^verbatim>\<open>log.Logger\<close> cannot write to it.
\<close>

record io_Writer =
  stream :: stream
  closer :: "error option option"

definition os_Stdout :: io_Writer where
  "os_Stdout = \<lparr>stream = Stdout, closer = Some None\<rparr>"

definition ioutil_Discard :: io_Writer where
  "ioutil_Discard = \<lparr>stream = Discard, closer = None\<rparr>"

text \<open>
  One effect on the outside world: \<open>Wrote s bs\<close> is one call of \<^verbatim>\<open>Write(bs)\<close> on a
  writer of stream \<open>s\<close>, \<open>Closed s\<close> is one call of \<^verbatim>\<open>Close()\<close> on it.
\<close>

datatype event = Wrote stream string | Closed stream

text \<open>
  An \<^verbatim>\<open>io.Closer\<close> value: the writer of a stream seen through its \<^verbatim>\<open>Close\<close> method,
  with the error that the method returns. \<open>as_Closer\<close> is the type assertion
  \<^verbatim>\<open>w.(io.Closer)\<close>, \<open>None\<close> when it fails.
\<close>

datatype io_Closer = Closer stream "error option"

definition as_Closer :: "io_Writer \<Rightarrow> io_Closer option" where
  "as_Closer w = (case closer w of None \<Rightarrow> None | Some r \<Rightarrow> Some (Closer (stream w) r))"

subsection \<open>The parts of package log that the source calls\<close>

text \<open>What \<^verbatim>\<open>time.Now()\<close> returned, as \<^verbatim>\<open>t.Date()\<close>, \<^verbatim>\<open>t.Clock()\<close> and
  \<^verbatim>\<open>t.Nanosecond()\<close> give it.\<close>

record Time =
  year :: nat
  month :: nat
  day :: nat
  hour :: nat
  minute :: nat
  sec :: nat
  nsec :: nat

text \<open>
  The flags of a \<^verbatim>\<open>log.Logger\<close>. The source sets \<^verbatim>\<open>Ldate|Ltime|Lmicroseconds\<close>
  everywhere; \<^verbatim>\<open>Lmsgprefix\<close> is the flag that would move the prefix behind the
  header. The flags for file names and UTC, which the source never sets, are left out.
\<close>

datatype log_flag = Ldate | Ltime | Lmicroseconds | Lmsgprefix

record log_Logger =
  prefix :: string
  flag :: "log_flag set"
  out :: io_Writer

text \<open>\<^verbatim>\<open>log.New(out, prefix, flag)\<close>.\<close>

definition log_New :: "io_Writer \<Rightarrow> string \<Rightarrow> log_flag set \<Rightarrow> log_Logger" where
  "log_New w p f = \<lparr>prefix = p, flag = f, out = w\<rparr>"

text \<open>
  \<^verbatim>\<open>itoa(buf, i, wid)\<close> of package log: decimal digits of \<open>i\<close>, padded with zeros to
  at least \<open>wid\<close> digits. The Go loop runs \<^verbatim>\<open>for i >= 10 || wid > 1\<close>, emitting the
  lowest digit and dividing by ten, and emits the last digit after the loop.
\<close>

function itoa :: "nat \<Rightarrow> nat \<Rightarrow> string" where
  "itoa i wid =
     (if i \<ge> 10 \<or> wid > 1 then itoa (i div 10) (wid - 1) @ [digit (i mod 10)]
      else [digit i])"
  by pat_completeness auto
termination
  by (relation "measure (\<lambda>(i, wid). i + wid)") auto

text \<open>
  \<^verbatim>\<open>(*Logger).formatHeader\<close>: the prefix (unless \<^verbatim>\<open>Lmsgprefix\<close> is set), the date,
  the time with microseconds, and the prefix here when \<^verbatim>\<open>Lmsgprefix\<close> is set.
\<close>

definition formatHeader :: "log_Logger \<Rightarrow> Time \<Rightarrow> string" where
  "formatHeader l t =
     (if Lmsgprefix \<notin> flag l then prefix l else [])
     @ (if Ldate \<in> flag l
        then itoa (year t) 4 @ ''/'' @ itoa (month t) 2 @ ''/'' @ itoa (day t) 2 @ '' ''
        else [])
     @ (if Ltime \<in> flag l \<or> Lmicroseconds \<in> flag l
        then itoa (hour t) 2 @ '':'' @ itoa (minute t) 2 @ '':'' @ itoa (sec t) 2
             @ (if Lmicroseconds \<in> flag l then ''.'' @ itoa (nsec t div 1000) 6 else [])
             @ '' ''
        else [])
     @ (if Lmsgprefix \<in> flag l then prefix l else [])"

text \<open>
  \<^verbatim>\<open>(*Logger).Output\<close>: header, message, a newline unless the message ends with
  one, and a single \<^verbatim>\<open>Write\<close> on the logger's writer.
\<close>

definition Output :: "log_Logger \<Rightarrow> Time \<Rightarrow> string \<Rightarrow> event" where
  "Output l t s =
     Wrote (stream (out l))
       (formatHeader l t @ s @ (if s = [] \<or> last s \<noteq> newline then [newline] else []))"

subsection \<open>The package-level variables\<close>

text \<open>
  \<^verbatim>\<open>type loggerPlus struct { logger *log.Logger }\<close>. The source compares
  \<^verbatim>\<open>*loggerPlus\<close> pointers (\<^verbatim>\<open>v == Error\<close>), so the model gives every allocated
  \<open>loggerPlus\<close> the address it was allocated at. A \<open>loggerPlus\<close> is never written
  after its allocation, so the value and the address are all there is to it.
\<close>

record loggerPlus =
  addr :: nat
  logger :: log_Logger

record globals =
  Info :: loggerPlus
  Trace :: loggerPlus
  Warn :: loggerPlus
  Error :: loggerPlus
  previousIo :: "io_Closer option"
  next_addr :: nat
  events :: "event list"

definition logInfoLabel :: string where "logInfoLabel = ''[info] ''"
definition logTraceLabel :: string where "logTraceLabel = ''[trace] ''"
definition logWarnLabel :: string where "logWarnLabel = ''[warn] ''"
definition logErrorLabel :: string where "logErrorLabel = ''[error] ''"

definition colorYellow :: string where "colorYellow = CHR 0x1B # ''[33m''"
definition colorRed :: string where "colorRed = CHR 0x1B # ''[31m''"
definition colorBlack :: string where "colorBlack = CHR 0x1B # ''[0m''"

text \<open>\<^verbatim>\<open>log.Ldate|log.Ltime|log.Lmicroseconds\<close>, the flags of every logger of the package.\<close>

definition stamp_flags :: "log_flag set" where
  "stamp_flags = {Ldate, Ltime, Lmicroseconds}"

text \<open>\<^verbatim>\<open>NewLoggerPlus(l)\<close> allocates: \<^verbatim>\<open>&loggerPlus{logger: l}\<close>.\<close>

definition NewLoggerPlus :: "log_Logger \<Rightarrow> globals \<Rightarrow> loggerPlus \<times> globals" where
  "NewLoggerPlus l st =
     (\<lparr>addr = next_addr st, logger = l\<rparr>, st\<lparr>next_addr := next_addr st + 1\<rparr>)"

text \<open>
  The globals once \<^verbatim>\<open>init()\<close> has run: Info on the discard writer, Trace, Warn and
  Error on standard output, \<^verbatim>\<open>previousIo\<close> at its zero value nil, and nothing written
  yet.
\<close>

definition init :: globals where
  "init =
     \<lparr>Info = \<lparr>addr = 0, logger = log_New ioutil_Discard logInfoLabel stamp_flags\<rparr>,
      Trace = \<lparr>addr = 1, logger = log_New os_Stdout logTraceLabel stamp_flags\<rparr>,
      Warn = \<lparr>addr = 2, logger = log_New os_Stdout logWarnLabel stamp_flags\<rparr>,
      Error = \<lparr>addr = 3, logger = log_New os_Stdout logErrorLabel stamp_flags\<rparr>,
      previousIo = None,
      next_addr = 4,
      events = []\<rparr>"

subsection \<open>Printing: doPrintln and doPrintf\<close>

definition emit :: "event \<Rightarrow> globals \<Rightarrow> globals" where
  "emit e st = st\<lparr>events := events st @ [e]\<rparr>"

text \<open>
  \<^verbatim>\<open>(*Logger).Println(v...)\<close> is \<^verbatim>\<open>l.Output(2, fmt.Sprintln(v...))\<close> and
  \<^verbatim>\<open>(*Logger).Printf(format, v...)\<close> is \<^verbatim>\<open>l.Output(2, fmt.Sprintf(format, v...))\<close>;
  \<open>now\<close> is the time that \<^verbatim>\<open>Output\<close> reads.
\<close>

definition log_Println :: "Time \<Rightarrow> log_Logger \<Rightarrow> any list \<Rightarrow> globals \<Rightarrow> globals" where
  "log_Println now l a st = emit (Output l now (Sprintln a)) st"

definition log_Printf ::
  "sprintf \<Rightarrow> Time \<Rightarrow> log_Logger \<Rightarrow> string \<Rightarrow> any list \<Rightarrow> globals \<Rightarrow> globals" where
  "log_Printf sp now l f a st = emit (Output l now (sp f a)) st"

text \<open>
  \<^verbatim>\<open>fmt.Fprintf(w, format)\<close> without arguments, which the source calls with the color
  sequences as formats.
\<close>

definition Fprintf :: "io_Writer \<Rightarrow> string \<Rightarrow> globals \<Rightarrow> globals" where
  "Fprintf w f st = emit (Wrote (stream w) (Sprintf_v f [])) st"

text \<open>\<^verbatim>\<open>func (v *loggerPlus) doPrintln(args ...interface{})\<close>.\<close>

definition doPrintln :: "Time \<Rightarrow> loggerPlus \<Rightarrow> any list \<Rightarrow> globals \<Rightarrow> globals" where
  "doPrintln now v args st =
     (if previousIo st = None then
        if addr v = addr (Error st) then
          Fprintf os_Stdout colorBlack
            (log_Println now (logger v) args (Fprintf os_Stdout colorRed st))
        else if addr v = addr (Warn st) then
          Fprintf os_Stdout colorBlack
            (log_Println now (logger v) args (Fprintf os_Stdout colorYellow st))
        else log_Println now (logger v) args st
      else log_Println now (logger v) args st)"

text \<open>\<^verbatim>\<open>func (v *loggerPlus) doPrintf(format string, args ...interface{})\<close>.\<close>

definition doPrintf ::
  "sprintf \<Rightarrow> Time \<Rightarrow> loggerPlus \<Rightarrow> string \<Rightarrow> any list \<Rightarrow> globals \<Rightarrow> globals" where
  "doPrintf sp now v f args st =
     (if previousIo st = None then
        if addr v = addr (Error st) then
          Fprintf os_Stdout colorBlack
            (log_Printf sp now (logger v) f args (Fprintf os_Stdout colorRed st))
        else if addr v = addr (Warn st) then
          Fprintf os_Stdout colorBlack
            (log_Printf sp now (logger v) f args (Fprintf os_Stdout colorYellow st))
        else log_Printf sp now (logger v) f args st
      else log_Printf sp now (logger v) f args st)"

text \<open>
  The interface \<^verbatim>\<open>Logger\<close> declares \<^verbatim>\<open>Println(ctx, a...)\<close> and
  \<^verbatim>\<open>Printf(ctx, format, a...)\<close>. The file defines the two halves of each, \<open>format\<close>
  and \<open>doPrintln\<close>, \<open>formatf\<close> and \<open>doPrintf\<close>, and not the method bodies that join
  them. A write with a context is therefore stated as \<open>doPrintln\<close> on the result of
  \<open>format\<close>, and as \<open>doPrintf\<close> on the result of \<open>formatf\<close>.
\<close>

subsection \<open>Switch and Close\<close>

text \<open>\<^verbatim>\<open>func Switch(w io.Writer)\<close>.\<close>

definition Switch :: "io_Writer \<Rightarrow> globals \<Rightarrow> globals" where
  "Switch w st0 =
     (let (i, st1) = NewLoggerPlus (log_New ioutil_Discard logInfoLabel stamp_flags) st0;
          (t, st2) = NewLoggerPlus (log_New w logTraceLabel stamp_flags) (st1\<lparr>Info := i\<rparr>);
          (wn, st3) = NewLoggerPlus (log_New w logWarnLabel stamp_flags) (st2\<lparr>Trace := t\<rparr>);
          (e, st4) = NewLoggerPlus (log_New w logErrorLabel stamp_flags) (st3\<lparr>Warn := wn\<rparr>);
          st5 = st4\<lparr>Error := e\<rparr>
      in case as_Closer w of
           Some c \<Rightarrow> st5\<lparr>previousIo := Some c\<rparr>
         | None \<Rightarrow> st5)"

text \<open>\<^verbatim>\<open>func Close() (err error)\<close>; the first component is \<open>err\<close>.\<close>

definition Close :: "globals \<Rightarrow> error option \<times> globals" where
  "Close st0 =
     (let (i, st1) = NewLoggerPlus (log_New ioutil_Discard logInfoLabel stamp_flags) st0;
          (t, st2) = NewLoggerPlus (log_New ioutil_Discard logTraceLabel stamp_flags) (st1\<lparr>Info := i\<rparr>);
          (wn, st3) = NewLoggerPlus (log_New ioutil_Discard logWarnLabel stamp_flags) (st2\<lparr>Trace := t\<rparr>);
          (e, st4) = NewLoggerPlus (log_New ioutil_Discard logErrorLabel stamp_flags) (st3\<lparr>Warn := wn\<rparr>);
          st5 = st4\<lparr>Error := e\<rparr>
      in case previousIo st5 of
           Some (Closer s r) \<Rightarrow> (r, (emit (Closed s) st5)\<lparr>previousIo := None\<rparr>)
         | None \<Rightarrow> (None, st5))"

subsection \<open>Calls on the package, one after the other\<close>

datatype level = LInfo | LTrace | LWarn | LError

text \<open>The logger that a level's package variable points to at the moment.\<close>

fun channel :: "level \<Rightarrow> globals \<Rightarrow> loggerPlus" where
  "channel LInfo st = Info st"
| "channel LTrace st = Trace st"
| "channel LWarn st = Warn st"
| "channel LError st = Error st"

text \<open>
  A call from outside: a level's current logger prints a line or a formatted
  message (whatever the arguments are, so also those that the tag resolution
  produces), the writer is switched, or the package is closed.
\<close>

datatype op =
    DoPrintln level Time "any list"
  | DoPrintf level Time string "any list"
  | OpSwitch io_Writer
  | OpClose

text \<open>The error returned to the caller (only \<^verbatim>\<open>Close\<close> has a result) and the new globals.\<close>

fun exec :: "sprintf \<Rightarrow> op \<Rightarrow> globals \<Rightarrow> error option \<times> globals" where
  "exec sp (DoPrintln lv now a) st = (None, doPrintln now (channel lv st) a st)"
| "exec sp (DoPrintf lv now f a) st = (None, doPrintf sp now (channel lv st) f a st)"
| "exec sp (OpSwitch w) st = (None, Switch w st)"
| "exec sp OpClose st = Close st"

fun run :: "sprintf \<Rightarrow> op list \<Rightarrow> globals \<Rightarrow> globals" where
  "run sp [] st = st"
| "run sp (c # cs) st = run sp cs (snd (exec sp c st))"

text \<open>Kinds of call, for statements about sequences of calls.\<close>

fun is_print :: "op \<Rightarrow> bool" where
  "is_print (DoPrintln lv now a) = True"
| "is_print (DoPrintf lv now f a) = True"
| "is_print (OpSwitch w) = False"
| "is_print OpClose = False"

fun is_Switch :: "op \<Rightarrow> bool" where
  "is_Switch (OpSwitch w) = True"
| "is_Switch c = False"

fun is_Close :: "op \<Rightarrow> bool" where
  "is_Close OpClose = True"
| "is_Close c = False"

fun is_Closed :: "event \<Rightarrow> bool" where
  "is_Closed (Closed s) = True"
| "is_Closed (Wrote s b) = False"

text \<open>
  The four package variables point to four different loggers. This holds once
  \<open>init\<close> has run and after every call: \<open>Switch\<close> and \<open>Close\<close> allocate four
  new loggers, printing allocates none.
\<close>

definition distinct_channels :: "globals \<Rightarrow> bool" where
  "distinct_channels st =
     distinct [addr (Info st), addr (Trace st), addr (Warn st), addr (Error st)]"

subsection \<open>Line patterns\<close>

text \<open>
  A line pattern is a sequence of single-character tests: a decimal digit
  (\<^verbatim>\<open>\d\<close>) or a given character. \<open>matches p s\<close>: the whole of \<open>s\<close> matches \<open>p\<close>, as with
  \<^verbatim>\<open>^\<close> and \<^verbatim>\<open>$\<close> around the pattern.
\<close>

definition is_digit :: "char \<Rightarrow> bool" where
  "is_digit c = (c \<in> set ''0123456789'')"

datatype pat = Digit | Lit char

fun matches :: "pat list \<Rightarrow> string \<Rightarrow> bool" where
  "matches [] s = (s = [])"
| "matches (p # ps) [] = False"
| "matches (Digit # ps) (c # cs) = (is_digit c \<and> matches ps cs)"
| "matches (Lit x # ps) (c # cs) = (c = x \<and> matches ps cs)"

definition digits :: "nat \<Rightarrow> pat list" where
  "digits n = replicate n Digit"

definition lit :: "string \<Rightarrow> pat list" where
  "lit s = map Lit s"

text \<open>\<^verbatim>\<open>\d{4}/\d{2}/\d{2} \d{2}:\d{2}:\d{2}\.\d{6}\<close>\<close>

definition timestamp_pattern :: "pat list" where
  "timestamp_pattern =
     digits 4 @ lit ''/'' @ digits 2 @ lit ''/'' @ digits 2 @ lit '' ''
     @ digits 2 @ lit '':'' @ digits 2 @ lit '':'' @ digits 2 @ lit ''.'' @ digits 6"

text \<open>
  The pattern of the spec's scenario,
  \<^verbatim>\<open>^\d{4}/\d{2}/\d{2} \d{2}:\d{2}:\d{2}\.\d{6} \[trace\] \[1234\] hello$\<close>.
\<close>

definition spec_line_pattern :: "pat list" where
  "spec_line_pattern = timestamp_pattern @ lit '' [trace] [1234] hello''"

text \<open>
  The pattern of the line that the code writes,
  \<^verbatim>\<open>^\[trace\] \d{4}/\d{2}/\d{2} \d{2}:\d{2}:\d{2}\.\d{6} \[1234\]  hello$\<close>.
\<close>

definition code_line_pattern :: "pat list" where
  "code_line_pattern = lit ''[trace] '' @ timestamp_pattern @ lit '' [1234]  hello''"

text \<open>
  A time of day on a date with a four-digit year, the range in which
  \<^verbatim>\<open>time.Now()\<close> lies.
\<close>

definition valid_Time :: "Time \<Rightarrow> bool" where
  "valid_Time t =
     (year t < 10000 \<and> 1 \<le> month t \<and> month t \<le> 12 \<and> 1 \<le> day t \<and> day t \<le> 31
      \<and> hour t < 24 \<and> minute t < 60 \<and> sec t < 60 \<and> nsec t < 1000000000)"

text \<open>Does \<open>s\<close> begin with \<open>p\<close>; does \<open>p\<close> occur somewhere in \<open>s\<close>.\<close>

fun starts_with :: "string \<Rightarrow> string \<Rightarrow> bool" where
  "starts_with [] s = True"
| "starts_with (p # ps) [] = False"
| "starts_with (p # ps) (c # cs) = (p = c \<and> starts_with ps cs)"

fun contains :: "string \<Rightarrow> string \<Rightarrow> bool" where
  "contains p [] = starts_with p []"
| "contains p (c # cs) = (starts_with p (c # cs) \<or> contains p cs)"

text \<open>The label that the package gives the logger of a level.\<close>

fun label :: "level \<Rightarrow> string" where
  "label LInfo = logInfoLabel"
| "label LTrace = logTraceLabel"
| "label LWarn = logWarnLabel"
| "label LError = logErrorLabel"

section \<open>Correlation-tag resolution\<close>

lemma Sprintf_v_pid: "Sprintf_v ''[%v] '' [x] = ''['' @ fmt_v x @ ''] ''"
  by simp

lemma Sprintf_v_pid_cid:
  "Sprintf_v ''[%v][%v] '' [x, y] = ''['' @ fmt_v x @ '']['' @ fmt_v y @ ''] ''"
  by simp

text \<open>
  C1. The three-way rule of \<open>format\<close> and \<open>formatf\<close>. For the nil context the
  string \<open>[pid] \<close> is put in front of the arguments (format variant: \<open>[%v] \<close> in front
  of the format and the pid in front of the arguments); for a context with
  \<open>Cid()\<close> the string \<open>[pid][cid] \<close> (format variant: \<open>[%v][%v] \<close>, then pid and
  cid); for any other context the arguments and the format are returned as they
  came.
\<close>

theorem format_three_way_rule:
  "format pid CtxNil a = AString (''['' @ fmt_int pid @ ''] '') # a
   \<and> format pid (CtxCid cid) a = AString (''['' @ fmt_int pid @ '']['' @ fmt_int cid @ ''] '') # a
   \<and> format pid (CtxOther x) a = a
   \<and> formatf pid CtxNil f a = (''[%v] '' @ f, AInt pid # a)
   \<and> formatf pid (CtxCid cid) f a = (''[%v][%v] '' @ f, AInt pid # AInt cid # a)
   \<and> formatf pid (CtxOther x) f a = (f, a)"
  by (simp add: Sprintf_v_pid Sprintf_v_pid_cid del: Sprintf_v.simps)

section \<open>What Switch, Close and the printing methods do to the globals\<close>

lemma Sprintf_v_colors:
  "Sprintf_v colorRed [] = colorRed" "Sprintf_v colorYellow [] = colorYellow"
  "Sprintf_v colorBlack [] = colorBlack"
  by (simp_all add: colorRed_def colorYellow_def colorBlack_def)

lemma Switch_eq:
  "Switch w st =
     st\<lparr>Info := \<lparr>addr = next_addr st, logger = log_New ioutil_Discard logInfoLabel stamp_flags\<rparr>,
        Trace := \<lparr>addr = next_addr st + 1, logger = log_New w logTraceLabel stamp_flags\<rparr>,
        Warn := \<lparr>addr = next_addr st + 2, logger = log_New w logWarnLabel stamp_flags\<rparr>,
        Error := \<lparr>addr = next_addr st + 3, logger = log_New w logErrorLabel stamp_flags\<rparr>,
        next_addr := next_addr st + 4,
        previousIo := (case as_Closer w of Some c \<Rightarrow> Some c | None \<Rightarrow> previousIo st)\<rparr>"
  by (simp add: Switch_def NewLoggerPlus_def split: option.split)

lemma Close_eq:
  "Close st =
     (case previousIo st of Some (Closer s r) \<Rightarrow> r | None \<Rightarrow> None,
      st\<lparr>Info := \<lparr>addr = next_addr st, logger = log_New ioutil_Discard logInfoLabel stamp_flags\<rparr>,
        Trace := \<lparr>addr = next_addr st + 1, logger = log_New ioutil_Discard logTraceLabel stamp_flags\<rparr>,
        Warn := \<lparr>addr = next_addr st + 2, logger = log_New ioutil_Discard logWarnLabel stamp_flags\<rparr>,
        Error := \<lparr>addr = next_addr st + 3, logger = log_New ioutil_Discard logErrorLabel stamp_flags\<rparr>,
        next_addr := next_addr st + 4,
        previousIo := None,
        events := events st @ (case previousIo st of Some (Closer s r) \<Rightarrow> [Closed s] | None \<Rightarrow> [])\<rparr>)"
  by (simp add: Close_def NewLoggerPlus_def emit_def split: option.split io_Closer.split)

lemma doPrintln_eq:
  "doPrintln now v a st =
     st\<lparr>events := events st @
        (if previousIo st = None \<and> addr v = addr (Error st)
         then [Wrote Stdout colorRed, Output (logger v) now (Sprintln a), Wrote Stdout colorBlack]
         else if previousIo st = None \<and> addr v = addr (Warn st)
         then [Wrote Stdout colorYellow, Output (logger v) now (Sprintln a), Wrote Stdout colorBlack]
         else [Output (logger v) now (Sprintln a)])\<rparr>"
  by (simp add: doPrintln_def Fprintf_def log_Println_def emit_def os_Stdout_def Sprintf_v_colors)

lemma doPrintf_eq:
  "doPrintf sp now v f a st =
     st\<lparr>events := events st @
        (if previousIo st = None \<and> addr v = addr (Error st)
         then [Wrote Stdout colorRed, Output (logger v) now (sp f a), Wrote Stdout colorBlack]
         else if previousIo st = None \<and> addr v = addr (Warn st)
         then [Wrote Stdout colorYellow, Output (logger v) now (sp f a), Wrote Stdout colorBlack]
         else [Output (logger v) now (sp f a)])\<rparr>"
  by (simp add: doPrintf_def Fprintf_def log_Printf_def emit_def os_Stdout_def Sprintf_v_colors)


lemma run_append: "run sp (xs @ ys) st = run sp ys (run sp xs st)"
  by (induction xs arbitrary: st) simp_all

lemma Close_twice_events:
  "events (snd (Close (snd (Close st)))) = events (snd (Close st))"
  by (simp add: Close_eq)

lemma run_Close_replicate:
  "previousIo st = None \<Longrightarrow>
     events (run sp (replicate n OpClose) st) = events st
     \<and> previousIo (run sp (replicate n OpClose) st) = None"
proof (induction n arbitrary: st)
  case 0
  then show ?case by simp
next
  case (Suc n)
  have "previousIo (snd (Close st)) = None" by (simp add: Close_eq)
  from Suc.IH [OF this] Suc.prems show ?case by (simp add: Close_eq)
qed

lemma digit_numerals:
  "digit 0 = CHR ''0''" "digit 1 = CHR ''1''" "digit 2 = CHR ''2''" "digit 3 = CHR ''3''"
  "digit 4 = CHR ''4''" "digit 5 = CHR ''5''" "digit 6 = CHR ''6''" "digit 7 = CHR ''7''"
  "digit 8 = CHR ''8''" "digit 9 = CHR ''9''" "digit (Suc 0) = CHR ''1''"
  by code_simp+

lemma Output_Sprintln:
  "Output l now (Sprintln a) = Wrote (stream (out l)) (formatHeader l now @ Sprintln a)"
  by (simp add: Output_def Sprintln_def)

lemma distinct_channels_init: "distinct_channels init"
  by (simp add: distinct_channels_def init_def)

lemma distinct_channels_Switch: "distinct_channels (Switch w st)"
  by (simp add: distinct_channels_def Switch_eq)

lemma distinct_channels_Close: "distinct_channels (snd (Close st))"
  by (simp add: distinct_channels_def Close_eq)

lemma distinct_channels_exec:
  "distinct_channels st \<Longrightarrow> distinct_channels (snd (exec sp c st))"
  by (cases c)
    (simp_all add: distinct_channels_Switch distinct_channels_Close,
     simp_all add: distinct_channels_def doPrintln_eq doPrintf_eq)

lemma distinct_channels_run:
  "distinct_channels st \<Longrightarrow> distinct_channels (run sp cs st)"
  by (induction cs arbitrary: st) (simp_all add: distinct_channels_exec)

text \<open>What one print on a level's current logger appends to the trace.\<close>

lemma doPrintln_channel:
  assumes "distinct_channels st"
  shows "events (doPrintln now (channel lv st) a st) =
     events st @
       (if previousIo st = None \<and> lv = LError
        then [Wrote Stdout colorRed, Output (logger (channel lv st)) now (Sprintln a),
              Wrote Stdout colorBlack]
        else if previousIo st = None \<and> lv = LWarn
        then [Wrote Stdout colorYellow, Output (logger (channel lv st)) now (Sprintln a),
              Wrote Stdout colorBlack]
        else [Output (logger (channel lv st)) now (Sprintln a)])"
  using assms by (cases lv) (auto simp add: doPrintln_eq distinct_channels_def)

lemma doPrintf_channel:
  assumes "distinct_channels st"
  shows "events (doPrintf sp now (channel lv st) f a st) =
     events st @
       (if previousIo st = None \<and> lv = LError
        then [Wrote Stdout colorRed, Output (logger (channel lv st)) now (sp f a),
              Wrote Stdout colorBlack]
        else if previousIo st = None \<and> lv = LWarn
        then [Wrote Stdout colorYellow, Output (logger (channel lv st)) now (sp f a),
              Wrote Stdout colorBlack]
        else [Output (logger (channel lv st)) now (sp f a)])"
  using assms by (cases lv) (auto simp add: doPrintf_eq distinct_channels_def)

text \<open>Printing changes nothing but the trace, and releases nothing.\<close>

lemma exec_print_frame:
  assumes "is_print c"
  shows "previousIo (snd (exec sp c st)) = previousIo st"
    and "channel lv (snd (exec sp c st)) = channel lv st"
    and "filter is_Closed (events (snd (exec sp c st))) = filter is_Closed (events st)"
  using assms
  by (cases c; cases lv; simp add: doPrintln_eq doPrintf_eq Output_def)+

lemma run_print_frame:
  assumes "list_all is_print cs"
  shows "previousIo (run sp cs st) = previousIo st
    \<and> channel lv (run sp cs st) = channel lv st
    \<and> filter is_Closed (events (run sp cs st)) = filter is_Closed (events st)"
  using assms
  by (induction cs arbitrary: st) (simp_all add: exec_print_frame)

lemma no_Switch_untracked:
  assumes "list_all (\<lambda>c. \<not> is_Switch c) cs" and "previousIo st = None"
  shows "previousIo (run sp cs st) = None"
  using assms
proof (induction cs arbitrary: st)
  case Nil
  then show ?case by simp
next
  case (Cons c cs)
  have "previousIo (snd (exec sp c st)) = None"
    using Cons.prems by (cases c) (simp_all add: doPrintln_eq doPrintf_eq Close_eq)
  with Cons show ?case by simp
qed

lemma no_Switch_Discard:
  assumes "list_all (\<lambda>c. \<not> is_Switch c) cs" and "out (logger (channel lv st)) = ioutil_Discard"
  shows "out (logger (channel lv (run sp cs st))) = ioutil_Discard"
  using assms
proof (induction cs arbitrary: st)
  case Nil
  then show ?case by simp
next
  case (Cons c cs)
  have "out (logger (channel lv (snd (exec sp c st)))) = ioutil_Discard"
    using Cons.prems
    by (cases c; cases lv; simp add: doPrintln_eq doPrintf_eq Close_eq log_New_def)
  with Cons show ?case by simp
qed

lemma no_Close_tracked:
  assumes "list_all (\<lambda>c. \<not> is_Close c) cs" and "previousIo st \<noteq> None"
  shows "previousIo (run sp cs st) \<noteq> None"
  using assms
proof (induction cs arbitrary: st)
  case Nil
  then show ?case by simp
next
  case (Cons c cs)
  have "previousIo (snd (exec sp c st)) \<noteq> None"
    using Cons.prems
    by (cases c) (auto simp add: doPrintln_eq doPrintf_eq Switch_eq split: option.splits)
  with Cons show ?case by simp
qed

lemma exec_Closed:
  "filter is_Closed (events (snd (exec sp c st))) =
     filter is_Closed (events st) @
       (case c of
          OpClose \<Rightarrow> (case previousIo st of Some (Closer s r) \<Rightarrow> [Closed s] | None \<Rightarrow> [])
        | _ \<Rightarrow> [])"
  by (cases c)
    (simp_all add: doPrintln_eq doPrintf_eq Switch_eq Close_eq Output_def
       split: option.split io_Closer.split)

text \<open>
  Whatever is tracked, and whatever has been released, was installed by a \<open>Switch\<close>
  of the sequence of calls (or is in the set \<open>S\<close> that the start state accounts for).
\<close>

lemma tracked_was_installed:
  assumes "\<forall>k. previousIo st = Some k \<longrightarrow> k \<in> S"
    and "\<forall>s. Closed s \<in> set (events st) \<longrightarrow> (\<exists>r. Closer s r \<in> S)"
  shows "(\<forall>k. previousIo (run sp cs st) = Some k \<longrightarrow>
            k \<in> S \<union> {k. \<exists>w. OpSwitch w \<in> set cs \<and> as_Closer w = Some k})
       \<and> (\<forall>s. Closed s \<in> set (events (run sp cs st)) \<longrightarrow>
            (\<exists>r. Closer s r \<in> S \<union> {k. \<exists>w. OpSwitch w \<in> set cs \<and> as_Closer w = Some k}))"
  using assms
proof (induction cs arbitrary: st S)
  case Nil
  then show ?case by simp
next
  case (Cons c cs)
  let ?S1 = "S \<union> {k. \<exists>w. c = OpSwitch w \<and> as_Closer w = Some k}"
  let ?st1 = "snd (exec sp c st)"
  have a: "\<forall>k. previousIo ?st1 = Some k \<longrightarrow> k \<in> ?S1"
    using Cons.prems(1)
    by (cases c) (auto simp add: doPrintln_eq doPrintf_eq Switch_eq Close_eq split: option.splits)
  have b: "\<forall>s. Closed s \<in> set (events ?st1) \<longrightarrow> (\<exists>r. Closer s r \<in> ?S1)"
  proof (cases c)
    case (DoPrintln lv now a)
    then show ?thesis using Cons.prems(2) by (auto simp add: doPrintln_eq Output_def)
  next
    case (DoPrintf lv now f a)
    then show ?thesis using Cons.prems(2) by (auto simp add: doPrintf_eq Output_def)
  next
    case (OpSwitch w)
    then show ?thesis using Cons.prems(2) by (auto simp add: Switch_eq)
  next
    case OpClose
    show ?thesis
    proof (cases "previousIo st")
      case None
      with OpClose Cons.prems(2) show ?thesis by (simp add: Close_eq)
    next
      case (Some k)
      obtain s0 r0 where k: "k = Closer s0 r0" by (cases k)
      from Some k Cons.prems(1) have "Closer s0 r0 \<in> S" by simp
      with OpClose Some k Cons.prems(2) show ?thesis by (auto simp add: Close_eq)
    qed
  qed
  have eq: "?S1 \<union> {k. \<exists>w. OpSwitch w \<in> set cs \<and> as_Closer w = Some k}
          = S \<union> {k. \<exists>w. OpSwitch w \<in> set (c # cs) \<and> as_Closer w = Some k}"
    by auto
  from Cons.IH [OF a b] show ?case
    unfolding eq by simp
qed

section \<open>Close\<close>

text \<open>
  C4. \<open>Close\<close> binds all four channels to the discard writer; if a sink is tracked
  it calls the sink's \<open>Close\<close> once, clears \<open>previousIo\<close> and returns what that call
  returned; with nothing tracked it returns nil. A second \<open>Close\<close> returns nil,
  adds no event and leaves the channels as they were, and any number of successive
  calls (at least one) leaves the trace that a single call leaves, so the tracked
  sink is released at most once.
\<close>

theorem Close_releases_once:
  "fst (Close st) = (case previousIo st of Some (Closer s r) \<Rightarrow> r | None \<Rightarrow> None)
   \<and> events (snd (Close st)) =
       events st @ (case previousIo st of Some (Closer s r) \<Rightarrow> [Closed s] | None \<Rightarrow> [])
   \<and> previousIo (snd (Close st)) = None
   \<and> out (logger (channel lv (snd (Close st)))) = ioutil_Discard
   \<and> fst (Close (snd (Close st))) = None
   \<and> events (snd (Close (snd (Close st)))) = events (snd (Close st))
   \<and> logger (channel lv (snd (Close (snd (Close st))))) = logger (channel lv (snd (Close st)))
   \<and> events (run sp (replicate (Suc n) OpClose) st) = events (snd (Close st))"
proof -
  have tracked: "previousIo (snd (Close st)) = None"
    by (simp add: Close_eq)
  have many: "events (run sp (replicate (Suc n) OpClose) st) = events (snd (Close st))"
    using run_Close_replicate [OF tracked, of sp n] by simp
  have chan: "out (logger (channel lv (snd (Close st)))) = ioutil_Discard"
    by (cases lv) (simp_all add: Close_eq log_New_def)
  have same: "logger (channel lv (snd (Close (snd (Close st))))) = logger (channel lv (snd (Close st)))"
    by (cases lv) (simp_all add: Close_eq)
  show ?thesis
    using tracked many chan same by (simp add: Close_eq)
qed


text \<open>
  C9. After \<open>Switch w1\<close> with a writer that is no \<open>io.Closer\<close>, \<open>Switch w2\<close> with
  one that is, and \<open>Close\<close>: the only release is that of \<open>w2\<close>, and its result is
  returned. A \<open>Switch\<close> with a writer that is no \<open>io.Closer\<close> leaves \<open>previousIo\<close> as
  it was, also when a releasable sink is tracked there.
\<close>

theorem Close_releases_latest_closer:
  assumes "as_Closer w1 = None" and "as_Closer w2 = Some (Closer s r)"
  shows "fst (Close (Switch w2 (Switch w1 st))) = r
    \<and> events (snd (Close (Switch w2 (Switch w1 st)))) = events st @ [Closed s]
    \<and> previousIo (Switch w1 st) = previousIo st
    \<and> previousIo (Switch w1 (Switch w2 st)) = Some (Closer s r)"
  using assms by (simp add: Close_eq Switch_eq)

theorem Close_releases_latest_closer_witness:
  "as_Closer \<lparr>stream = Sink 1, closer = None\<rparr> = None
   \<and> as_Closer \<lparr>stream = Sink 2, closer = Some (Some (Err ''busy''))\<rparr> = Some (Closer (Sink 2) (Some (Err ''busy'')))
   \<and> fst (Close (Switch \<lparr>stream = Sink 2, closer = Some (Some (Err ''busy''))\<rparr>
        (Switch \<lparr>stream = Sink 1, closer = None\<rparr> init))) = Some (Err ''busy'')
   \<and> events (snd (Close (Switch \<lparr>stream = Sink 2, closer = Some (Some (Err ''busy''))\<rparr>
        (Switch \<lparr>stream = Sink 1, closer = None\<rparr> init)))) = [Closed (Sink 2)]"
proof -
  have h1: "as_Closer \<lparr>stream = Sink 1, closer = None\<rparr> = None"
    by (simp add: as_Closer_def)
  have h2: "as_Closer \<lparr>stream = Sink 2, closer = Some (Some (Err ''busy''))\<rparr>
            = Some (Closer (Sink 2) (Some (Err ''busy'')))"
    by (simp add: as_Closer_def)
  have e: "events init = []" by (simp add: init_def)
  show ?thesis
    using Close_releases_latest_closer [OF h1 h2, of init] h1 h2 e by simp
qed

section \<open>Color annotation\<close>

text \<open>
  C5 (as the code has it). As long as no \<open>Switch\<close> has been called, every print on
  the Error logger writes the red sequence to standard output, then the line, then
  the reset sequence, and every print on the Warn logger does so with yellow. After
  a \<open>Switch\<close> to a writer that is an \<open>io.Closer\<close>, and until \<open>Close\<close> is called,
  a print on the Warn or Error logger is the single write of its line.
\<close>

theorem color_annotation_rule:
  assumes "list_all (\<lambda>c. \<not> is_Switch c) cs1"
    and "as_Closer w \<noteq> None"
    and "list_all (\<lambda>c. \<not> is_Close c) cs2"
  shows "(let st1 = run sp cs1 init in
            events (doPrintln now (Error st1) a st1) =
              events st1 @ [Wrote Stdout colorRed, Output (logger (Error st1)) now (Sprintln a),
                            Wrote Stdout colorBlack]
          \<and> events (doPrintln now (Warn st1) a st1) =
              events st1 @ [Wrote Stdout colorYellow, Output (logger (Warn st1)) now (Sprintln a),
                            Wrote Stdout colorBlack]
          \<and> events (doPrintf sp now (Error st1) f a st1) =
              events st1 @ [Wrote Stdout colorRed, Output (logger (Error st1)) now (sp f a),
                            Wrote Stdout colorBlack]
          \<and> events (doPrintf sp now (Warn st1) f a st1) =
              events st1 @ [Wrote Stdout colorYellow, Output (logger (Warn st1)) now (sp f a),
                            Wrote Stdout colorBlack])
       \<and> (let st2 = run sp cs2 (Switch w st) in
            events (doPrintln now (Error st2) a st2) =
              events st2 @ [Output (logger (Error st2)) now (Sprintln a)]
          \<and> events (doPrintln now (Warn st2) a st2) =
              events st2 @ [Output (logger (Warn st2)) now (Sprintln a)]
          \<and> events (doPrintf sp now (Error st2) f a st2) =
              events st2 @ [Output (logger (Error st2)) now (sp f a)]
          \<and> events (doPrintf sp now (Warn st2) f a st2) =
              events st2 @ [Output (logger (Warn st2)) now (sp f a)])"
proof -
  let ?st1 = "run sp cs1 init" and ?st2 = "run sp cs2 (Switch w st)"
  have none: "previousIo ?st1 = None"
    using assms(1) by (rule no_Switch_untracked) (simp add: init_def)
  have d1: "distinct_channels ?st1"
    by (rule distinct_channels_run) (rule distinct_channels_init)
  have "previousIo (Switch w st) \<noteq> None"
    using assms(2) by (auto simp add: Switch_eq)
  with assms(3) have some: "previousIo ?st2 \<noteq> None"
    by (rule no_Close_tracked)
  have d2: "distinct_channels ?st2"
    by (rule distinct_channels_run) (rule distinct_channels_Switch)
  have p1: "events (doPrintln now (Error ?st1) a ?st1) =
              events ?st1 @ [Wrote Stdout colorRed, Output (logger (Error ?st1)) now (Sprintln a),
                            Wrote Stdout colorBlack]"
    using doPrintln_channel [OF d1, of now LError a] none by simp
  have p2: "events (doPrintln now (Warn ?st1) a ?st1) =
              events ?st1 @ [Wrote Stdout colorYellow, Output (logger (Warn ?st1)) now (Sprintln a),
                            Wrote Stdout colorBlack]"
    using doPrintln_channel [OF d1, of now LWarn a] none by simp
  have p3: "events (doPrintf sp now (Error ?st1) f a ?st1) =
              events ?st1 @ [Wrote Stdout colorRed, Output (logger (Error ?st1)) now (sp f a),
                            Wrote Stdout colorBlack]"
    using doPrintf_channel [OF d1, of sp now LError f a] none by simp
  have p4: "events (doPrintf sp now (Warn ?st1) f a ?st1) =
              events ?st1 @ [Wrote Stdout colorYellow, Output (logger (Warn ?st1)) now (sp f a),
                            Wrote Stdout colorBlack]"
    using doPrintf_channel [OF d1, of sp now LWarn f a] none by simp
  have q1: "events (doPrintln now (Error ?st2) a ?st2) =
              events ?st2 @ [Output (logger (Error ?st2)) now (Sprintln a)]"
    using doPrintln_channel [OF d2, of now LError a] some by simp
  have q2: "events (doPrintln now (Warn ?st2) a ?st2) =
              events ?st2 @ [Output (logger (Warn ?st2)) now (Sprintln a)]"
    using doPrintln_channel [OF d2, of now LWarn a] some by simp
  have q3: "events (doPrintf sp now (Error ?st2) f a ?st2) =
              events ?st2 @ [Output (logger (Error ?st2)) now (sp f a)]"
    using doPrintf_channel [OF d2, of sp now LError f a] some by simp
  have q4: "events (doPrintf sp now (Warn ?st2) f a ?st2) =
              events ?st2 @ [Output (logger (Warn ?st2)) now (sp f a)]"
    using doPrintf_channel [OF d2, of sp now LWarn f a] some by simp
  show ?thesis
    unfolding Let_def using p1 p2 p3 p4 q1 q2 q3 q4 by blast
qed

theorem color_annotation_rule_witness:
  "list_all (\<lambda>c. \<not> is_Switch c) [OpClose]
   \<and> as_Closer \<lparr>stream = Sink 2, closer = Some None\<rparr> \<noteq> None
   \<and> list_all (\<lambda>c. \<not> is_Close c) [OpSwitch \<lparr>stream = Sink 1, closer = None\<rparr>]
   \<and> events (doPrintln \<lparr>year = 2024, month = 1, day = 2, hour = 3, minute = 4, sec = 5, nsec = 6789\<rparr> (Error (run (\<lambda>f a. f) [OpClose] init)) [AString ''x''] (run (\<lambda>f a. f) [OpClose] init)) =
       [Wrote Stdout colorRed,
        Output (log_New ioutil_Discard logErrorLabel stamp_flags) \<lparr>year = 2024, month = 1, day = 2, hour = 3, minute = 4, sec = 5, nsec = 6789\<rparr> (Sprintln [AString ''x'']),
        Wrote Stdout colorBlack]
   \<and> events (doPrintln \<lparr>year = 2024, month = 1, day = 2, hour = 3, minute = 4, sec = 5, nsec = 6789\<rparr>
         (Warn (run (\<lambda>f a. f) [OpSwitch \<lparr>stream = Sink 1, closer = None\<rparr>]
                  (Switch \<lparr>stream = Sink 2, closer = Some None\<rparr> init)))
         [AString ''x'']
         (run (\<lambda>f a. f) [OpSwitch \<lparr>stream = Sink 1, closer = None\<rparr>]
                  (Switch \<lparr>stream = Sink 2, closer = Some None\<rparr> init))) =
       [Output (log_New \<lparr>stream = Sink 1, closer = None\<rparr> logWarnLabel stamp_flags) \<lparr>year = 2024, month = 1, day = 2, hour = 3, minute = 4, sec = 5, nsec = 6789\<rparr>
          (Sprintln [AString ''x''])]"
proof -
  have h1: "list_all (\<lambda>c. \<not> is_Switch c) [OpClose]" by simp
  have h2: "as_Closer \<lparr>stream = Sink 2, closer = Some None\<rparr> \<noteq> None"
    by (simp add: as_Closer_def)
  have h3: "list_all (\<lambda>c. \<not> is_Close c) [OpSwitch \<lparr>stream = Sink 1, closer = None\<rparr>]" by simp
  have e1: "events (run (\<lambda>f a. f) [OpClose] init) = []"
    "logger (Error (run (\<lambda>f a. f) [OpClose] init)) = log_New ioutil_Discard logErrorLabel stamp_flags"
    by (simp_all add: Close_eq init_def)
  have e2: "events (run (\<lambda>f a. f) [OpSwitch \<lparr>stream = Sink 1, closer = None\<rparr>]
                  (Switch \<lparr>stream = Sink 2, closer = Some None\<rparr> init)) = []"
    "logger (Warn (run (\<lambda>f a. f) [OpSwitch \<lparr>stream = Sink 1, closer = None\<rparr>]
                  (Switch \<lparr>stream = Sink 2, closer = Some None\<rparr> init)))
       = log_New \<lparr>stream = Sink 1, closer = None\<rparr> logWarnLabel stamp_flags"
    by (simp_all add: Switch_eq init_def)
  show ?thesis
    using color_annotation_rule [OF h1 h2 h3, where sp = "\<lambda>f a. f"
        and now = "\<lparr>year = 2024, month = 1, day = 2, hour = 3, minute = 4, sec = 5, nsec = 6789\<rparr>"
        and a = "[AString ''x'']" and st = init] h1 h2 h3 e1 e2
    unfolding Let_def by simp
qed

text \<open>
  After a \<open>Switch\<close> to a writer that is no \<open>io.Closer\<close>, with nothing tracked
  before, \<open>previousIo\<close> is still nil: a print on the Error logger sends the line to
  the new sink and both color sequences to standard output.
\<close>

theorem color_after_Switch_counterexample:
  "events (doPrintln \<lparr>year = 2024, month = 1, day = 2, hour = 3, minute = 4, sec = 5, nsec = 6789\<rparr>
      (Error (Switch \<lparr>stream = Sink 1, closer = None\<rparr> init)) [AString ''x'']
      (Switch \<lparr>stream = Sink 1, closer = None\<rparr> init))
   = [Wrote Stdout colorRed,
      Wrote (Sink 1) ''[error] 2024/01/02 03:04:05.000006 x\<newline>'',
      Wrote Stdout colorBlack]"
  by (simp add: doPrintln_eq Switch_eq init_def Output_def Sprintln_def formatHeader_def
      log_New_def stamp_flags_def logErrorLabel_def newline_def digit_numerals as_Closer_def)

text \<open>
  C10. After \<open>Close\<close> and as long as \<open>Switch\<close> is not called, a print on the Warn
  or Error logger writes the color sequence and the reset sequence to standard
  output again, while the line itself goes to the discard writer: the test is
  \<open>previousIo = nil\<close>, whatever the channels are bound to.
\<close>

theorem color_after_Close:
  assumes "list_all (\<lambda>c. \<not> is_Switch c) cs"
  shows "let st' = run sp cs (snd (Close st)) in
           previousIo st' = None
         \<and> out (logger (Warn st')) = ioutil_Discard
         \<and> out (logger (Error st')) = ioutil_Discard
         \<and> events (doPrintln now (Error st') a st') =
             events st' @ [Wrote Stdout colorRed,
                           Wrote Discard (formatHeader (logger (Error st')) now @ Sprintln a),
                           Wrote Stdout colorBlack]
         \<and> events (doPrintln now (Warn st') a st') =
             events st' @ [Wrote Stdout colorYellow,
                           Wrote Discard (formatHeader (logger (Warn st')) now @ Sprintln a),
                           Wrote Stdout colorBlack]
         \<and> events (doPrintf sp now (Error st') f a st') =
             events st' @ [Wrote Stdout colorRed, Output (logger (Error st')) now (sp f a),
                           Wrote Stdout colorBlack]
         \<and> events (doPrintf sp now (Warn st') f a st') =
             events st' @ [Wrote Stdout colorYellow, Output (logger (Warn st')) now (sp f a),
                           Wrote Stdout colorBlack]"
proof -
  let ?st = "run sp cs (snd (Close st))"
  have none: "previousIo ?st = None"
    using assms by (rule no_Switch_untracked) (simp add: Close_eq)
  have d: "distinct_channels ?st"
    by (rule distinct_channels_run) (rule distinct_channels_Close)
  have "out (logger (channel lv (snd (Close st)))) = ioutil_Discard" for lv
    by (cases lv) (simp_all add: Close_eq log_New_def)
  then have disc: "out (logger (channel lv ?st)) = ioutil_Discard" for lv
    using assms by (rule no_Switch_Discard [rotated])
  have w: "out (logger (Warn ?st)) = ioutil_Discard" using disc [of LWarn] by simp
  have e: "out (logger (Error ?st)) = ioutil_Discard" using disc [of LError] by simp
  have p1: "events (doPrintln now (Error ?st) a ?st) =
             events ?st @ [Wrote Stdout colorRed,
                           Wrote Discard (formatHeader (logger (Error ?st)) now @ Sprintln a),
                           Wrote Stdout colorBlack]"
    using doPrintln_channel [OF d, of now LError a] none e
    by (simp add: Output_Sprintln ioutil_Discard_def)
  have p2: "events (doPrintln now (Warn ?st) a ?st) =
             events ?st @ [Wrote Stdout colorYellow,
                           Wrote Discard (formatHeader (logger (Warn ?st)) now @ Sprintln a),
                           Wrote Stdout colorBlack]"
    using doPrintln_channel [OF d, of now LWarn a] none w
    by (simp add: Output_Sprintln ioutil_Discard_def)
  have p3: "events (doPrintf sp now (Error ?st) f a ?st) =
             events ?st @ [Wrote Stdout colorRed, Output (logger (Error ?st)) now (sp f a),
                           Wrote Stdout colorBlack]"
    using doPrintf_channel [OF d, of sp now LError f a] none by simp
  have p4: "events (doPrintf sp now (Warn ?st) f a ?st) =
             events ?st @ [Wrote Stdout colorYellow, Output (logger (Warn ?st)) now (sp f a),
                           Wrote Stdout colorBlack]"
    using doPrintf_channel [OF d, of sp now LWarn f a] none by simp
  show ?thesis
    unfolding Let_def using none w e p1 p2 p3 p4 by blast
qed

theorem color_after_Close_witness:
  "list_all (\<lambda>c. \<not> is_Switch c) [OpClose]
   \<and> events (doPrintln \<lparr>year = 2024, month = 1, day = 2, hour = 3, minute = 4, sec = 5, nsec = 6789\<rparr>
        (Warn (run (\<lambda>f a. f) [OpClose] (snd (Close (Switch \<lparr>stream = Sink 2, closer = Some None\<rparr> init)))))
        [AString ''x'']
        (run (\<lambda>f a. f) [OpClose] (snd (Close (Switch \<lparr>stream = Sink 2, closer = Some None\<rparr> init)))))
     = [Closed (Sink 2), Wrote Stdout colorYellow,
        Wrote Discard (formatHeader (log_New ioutil_Discard logWarnLabel stamp_flags) \<lparr>year = 2024, month = 1, day = 2, hour = 3, minute = 4, sec = 5, nsec = 6789\<rparr>
                         @ Sprintln [AString ''x'']),
        Wrote Stdout colorBlack]"
proof -
  have h: "list_all (\<lambda>c. \<not> is_Switch c) [OpClose]" by simp
  let ?st = "run (\<lambda>f a. f) [OpClose] (snd (Close (Switch \<lparr>stream = Sink 2, closer = Some None\<rparr> init)))"
  have e: "events ?st = [Closed (Sink 2)]"
    "logger (Warn ?st) = log_New ioutil_Discard logWarnLabel stamp_flags"
    by (simp_all add: Close_eq Switch_eq init_def as_Closer_def)
  show ?thesis
    using color_after_Close [OF h, where sp = "\<lambda>f a. f"
        and st = "Switch \<lparr>stream = Sink 2, closer = Some None\<rparr> init"
        and now = "\<lparr>year = 2024, month = 1, day = 2, hour = 3, minute = 4, sec = 5, nsec = 6789\<rparr>"
        and a = "[AString ''x'']"] h e
    unfolding Let_def by simp
qed

section \<open>Switch\<close>

text \<open>
  C3. \<open>Switch w\<close> binds Trace, Warn and Error to \<open>w\<close> and Info to the discard
  writer. After \<open>Switch wA\<close> and \<open>Switch wB\<close>, which add no event, and any number
  of prints: nothing has been released, Info is bound to the discard writer and the
  other three levels to \<open>wB\<close>, so that what a level's logger writes goes to the
  stream of \<open>wB\<close> (for Info, nowhere), and a print on a level is one such write of
  its line; the only other events are the two color sequences on standard output
  around a Warn or Error line while \<open>previousIo\<close> is nil.
\<close>

theorem Switch_rebinds_channels:
  assumes "list_all is_print cs"
  shows "logger (Info (Switch w st)) = log_New ioutil_Discard logInfoLabel stamp_flags
    \<and> logger (Trace (Switch w st)) = log_New w logTraceLabel stamp_flags
    \<and> logger (Warn (Switch w st)) = log_New w logWarnLabel stamp_flags
    \<and> logger (Error (Switch w st)) = log_New w logErrorLabel stamp_flags
    \<and> events (Switch wB (Switch wA st)) = events st
    \<and> (let st' = run sp cs (Switch wB (Switch wA st)) in
         filter is_Closed (events st') = filter is_Closed (events st)
       \<and> out (logger (channel lv st')) = (if lv = LInfo then ioutil_Discard else wB)
       \<and> Output (logger (channel lv st')) now m =
           Wrote (if lv = LInfo then Discard else stream wB)
             (formatHeader (logger (channel lv st')) now @ m
                @ (if m = [] \<or> last m \<noteq> newline then [newline] else []))
       \<and> events (doPrintln now (channel lv st') a st') =
           events st' @
             (if previousIo st' = None \<and> lv = LError
              then [Wrote Stdout colorRed, Output (logger (channel lv st')) now (Sprintln a),
                    Wrote Stdout colorBlack]
              else if previousIo st' = None \<and> lv = LWarn
              then [Wrote Stdout colorYellow, Output (logger (channel lv st')) now (Sprintln a),
                    Wrote Stdout colorBlack]
              else [Output (logger (channel lv st')) now (Sprintln a)])
       \<and> events (doPrintf sp now (channel lv st') f a st') =
           events st' @
             (if previousIo st' = None \<and> lv = LError
              then [Wrote Stdout colorRed, Output (logger (channel lv st')) now (sp f a),
                    Wrote Stdout colorBlack]
              else if previousIo st' = None \<and> lv = LWarn
              then [Wrote Stdout colorYellow, Output (logger (channel lv st')) now (sp f a),
                    Wrote Stdout colorBlack]
              else [Output (logger (channel lv st')) now (sp f a)]))"
proof -
  let ?s2 = "Switch wB (Switch wA st)"
  let ?st = "run sp cs ?s2"
  have frame: "previousIo ?st = previousIo ?s2 \<and> channel lv ?st = channel lv ?s2
      \<and> filter is_Closed (events ?st) = filter is_Closed (events ?s2)"
    using assms by (rule run_print_frame)
  have ev: "events ?s2 = events st" by (simp add: Switch_eq)
  have closed: "filter is_Closed (events ?st) = filter is_Closed (events st)"
    using frame ev by simp
  have bound: "out (logger (channel lv ?st)) = (if lv = LInfo then ioutil_Discard else wB)"
    using frame by (cases lv) (simp_all add: Switch_eq log_New_def)
  have dest: "Output (logger (channel lv ?st)) now m =
           Wrote (if lv = LInfo then Discard else stream wB)
             (formatHeader (logger (channel lv ?st)) now @ m
                @ (if m = [] \<or> last m \<noteq> newline then [newline] else []))"
    using bound by (simp add: Output_def ioutil_Discard_def)
  have d: "distinct_channels ?st"
    by (rule distinct_channels_run) (rule distinct_channels_Switch)
  have one: "logger (Info (Switch w st)) = log_New ioutil_Discard logInfoLabel stamp_flags
    \<and> logger (Trace (Switch w st)) = log_New w logTraceLabel stamp_flags
    \<and> logger (Warn (Switch w st)) = log_New w logWarnLabel stamp_flags
    \<and> logger (Error (Switch w st)) = log_New w logErrorLabel stamp_flags"
    by (simp add: Switch_eq)
  show ?thesis
    unfolding Let_def
    using one ev closed bound dest doPrintln_channel [OF d, of now lv a]
      doPrintf_channel [OF d, of sp now lv f a]
    by blast
qed

theorem Switch_rebinds_channels_witness:
  "list_all is_print
      [DoPrintln LInfo \<lparr>year = 2024, month = 1, day = 2, hour = 3, minute = 4, sec = 5, nsec = 6789\<rparr>
         [AString ''i'']]
   \<and> events (doPrintln \<lparr>year = 2024, month = 1, day = 2, hour = 3, minute = 4, sec = 5, nsec = 6789\<rparr>
        (Warn (run (\<lambda>f a. f)
           [DoPrintln LInfo \<lparr>year = 2024, month = 1, day = 2, hour = 3, minute = 4, sec = 5, nsec = 6789\<rparr>
              [AString ''i'']]
           (Switch \<lparr>stream = Sink 2, closer = Some None\<rparr> (Switch \<lparr>stream = Sink 1, closer = None\<rparr> init))))
        [AString ''x'']
        (run (\<lambda>f a. f)
           [DoPrintln LInfo \<lparr>year = 2024, month = 1, day = 2, hour = 3, minute = 4, sec = 5, nsec = 6789\<rparr>
              [AString ''i'']]
           (Switch \<lparr>stream = Sink 2, closer = Some None\<rparr> (Switch \<lparr>stream = Sink 1, closer = None\<rparr> init))))
     = [Wrote Discard ''[info] 2024/01/02 03:04:05.000006 i\<newline>'',
        Wrote (Sink 2) ''[warn] 2024/01/02 03:04:05.000006 x\<newline>'']"
proof -
  let ?t = "\<lparr>year = 2024, month = 1, day = 2, hour = 3, minute = 4, sec = 5, nsec = 6789\<rparr>"
  let ?cs = "[DoPrintln LInfo ?t [AString ''i'']]"
  let ?wA = "\<lparr>stream = Sink 1, closer = None\<rparr>" and ?wB = "\<lparr>stream = Sink 2, closer = Some None\<rparr>"
  let ?st = "run (\<lambda>f a. f) ?cs (Switch ?wB (Switch ?wA init))"
  have h: "list_all is_print ?cs" by simp
  have p: "previousIo ?st \<noteq> None"
    by (simp add: doPrintln_eq Switch_eq init_def as_Closer_def)
  have l: "logger (Warn ?st) = log_New ?wB logWarnLabel stamp_flags"
    by (simp add: doPrintln_eq Switch_eq)
  have e: "events ?st = [Wrote Discard ''[info] 2024/01/02 03:04:05.000006 i\<newline>'']"
    by (simp add: doPrintln_eq Switch_eq init_def as_Closer_def Output_def Sprintln_def
        formatHeader_def log_New_def stamp_flags_def logInfoLabel_def newline_def digit_numerals
        ioutil_Discard_def)
  have o: "Output (log_New ?wB logWarnLabel stamp_flags) ?t (Sprintln [AString ''x''])
           = Wrote (Sink 2) ''[warn] 2024/01/02 03:04:05.000006 x\<newline>''"
    by (simp add: Output_def Sprintln_def formatHeader_def log_New_def stamp_flags_def
        logWarnLabel_def newline_def digit_numerals)
  from Switch_rebinds_channels [OF h, where wB = ?wB and wA = ?wA and st = init
      and sp = "\<lambda>f a. f" and lv = LWarn and now = ?t and a = "[AString ''x'']"]
  have "events (doPrintln ?t (Warn ?st) [AString ''x''] ?st) =
          events ?st @ [Output (logger (Warn ?st)) ?t (Sprintln [AString ''x''])]"
    unfolding Let_def using p by simp
  then show ?thesis
    using h e o l by simp
qed

section \<open>The tracked sink\<close>

text \<open>
  C6. \<open>previousIo\<close> is one variable, so at most one sink is tracked at a time. A
  \<open>Switch\<close> to a writer that is an \<open>io.Closer\<close> overwrites it with that writer;
  \<open>Switch\<close> adds no event, so it closes nothing; a call releases something only if
  it is \<open>Close\<close>, and then what it releases is the tracked sink. In every state
  reached from the initial one, the tracked sink and every sink released so far
  were installed by an earlier \<open>Switch\<close>.
\<close>

theorem tracked_sink_invariant:
  "previousIo (Switch w st) = (case as_Closer w of Some k \<Rightarrow> Some k | None \<Rightarrow> previousIo st)
   \<and> events (Switch w st) = events st
   \<and> filter is_Closed (events (snd (exec sp c st))) =
       filter is_Closed (events st) @
         (case c of
            OpClose \<Rightarrow> (case previousIo st of Some (Closer s r) \<Rightarrow> [Closed s] | None \<Rightarrow> [])
          | _ \<Rightarrow> [])
   \<and> (\<forall>k. previousIo (run sp cs init) = Some k \<longrightarrow>
         (\<exists>w. OpSwitch w \<in> set cs \<and> as_Closer w = Some k))
   \<and> (\<forall>s. Closed s \<in> set (events (run sp cs init)) \<longrightarrow>
         (\<exists>w r. OpSwitch w \<in> set cs \<and> as_Closer w = Some (Closer s r)))"
proof -
  have a: "\<forall>k. previousIo init = Some k \<longrightarrow> k \<in> {}" by (simp add: init_def)
  have b: "\<forall>s. Closed s \<in> set (events init) \<longrightarrow> (\<exists>r. Closer s r \<in> {})" by (simp add: init_def)
  from tracked_was_installed [OF a b, of sp cs]
  have reach: "(\<forall>k. previousIo (run sp cs init) = Some k \<longrightarrow>
         (\<exists>w. OpSwitch w \<in> set cs \<and> as_Closer w = Some k))
   \<and> (\<forall>s. Closed s \<in> set (events (run sp cs init)) \<longrightarrow>
         (\<exists>w r. OpSwitch w \<in> set cs \<and> as_Closer w = Some (Closer s r)))"
    by simp blast
  have sw: "previousIo (Switch w st) = (case as_Closer w of Some k \<Rightarrow> Some k | None \<Rightarrow> previousIo st)"
    "events (Switch w st) = events st"
    by (simp_all add: Switch_eq)
  show ?thesis
    using reach sw exec_Closed [of sp c st] by blast
qed

theorem tracked_sink_invariant_witness:
  "previousIo (run (\<lambda>f a. f)
       [OpSwitch \<lparr>stream = Sink 2, closer = Some None\<rparr>, OpClose,
        OpSwitch \<lparr>stream = Sink 3, closer = Some None\<rparr>] init) = Some (Closer (Sink 3) None)
   \<and> (\<exists>w. OpSwitch w \<in> set [OpSwitch \<lparr>stream = Sink 2, closer = Some None\<rparr>, OpClose,
        OpSwitch \<lparr>stream = Sink 3, closer = Some None\<rparr>] \<and> as_Closer w = Some (Closer (Sink 3) None))
   \<and> Closed (Sink 2) \<in> set (events (run (\<lambda>f a. f)
       [OpSwitch \<lparr>stream = Sink 2, closer = Some None\<rparr>, OpClose,
        OpSwitch \<lparr>stream = Sink 3, closer = Some None\<rparr>] init))
   \<and> (\<exists>w r. OpSwitch w \<in> set [OpSwitch \<lparr>stream = Sink 2, closer = Some None\<rparr>, OpClose,
        OpSwitch \<lparr>stream = Sink 3, closer = Some None\<rparr>] \<and> as_Closer w = Some (Closer (Sink 2) r))"
proof -
  let ?cs = "[OpSwitch \<lparr>stream = Sink 2, closer = Some None\<rparr>, OpClose,
        OpSwitch \<lparr>stream = Sink 3, closer = Some None\<rparr>]"
  have h1: "previousIo (run (\<lambda>f a. f) ?cs init) = Some (Closer (Sink 3) None)"
    by (simp add: Switch_eq Close_eq init_def as_Closer_def)
  have h2: "Closed (Sink 2) \<in> set (events (run (\<lambda>f a. f) ?cs init))"
    by (simp add: Switch_eq Close_eq init_def as_Closer_def)
  from tracked_sink_invariant [where sp = "\<lambda>f a. f" and cs = ?cs] h1 h2
  show ?thesis by blast
qed

section \<open>The line of a print\<close>

lemma is_digit_digit: "d < 10 \<Longrightarrow> is_digit (digit d)"
proof -
  assume "d < 10"
  then have "d = 0 \<or> d = 1 \<or> d = 2 \<or> d = 3 \<or> d = 4 \<or> d = 5 \<or> d = 6 \<or> d = 7 \<or> d = 8 \<or> d = 9"
    by arith
  then show ?thesis
    by (auto simp add: digit_numerals is_digit_def)
qed

lemma itoa_fixed_width:
  "0 < wid \<Longrightarrow> i < 10 ^ wid \<Longrightarrow>
     length (itoa i wid) = wid \<and> (\<forall>c \<in> set (itoa i wid). is_digit c)"
proof (induction i wid rule: itoa.induct)
  case (1 i wid)
  show ?case
  proof (cases "i \<ge> 10 \<or> wid > 1")
    case True
    have w: "1 < wid"
    proof (rule ccontr)
      assume "\<not> 1 < wid"
      with "1.prems" have "wid = 1" by simp
      with "1.prems" True show False by simp
    qed
    then obtain k where k: "wid = Suc k" "0 < k"
      by (cases wid) auto
    from "1.prems"(2) k have small: "i div 10 < 10 ^ k"
      by (simp add: less_mult_imp_div_less mult.commute)
    from "1.IH" [OF True] k small
    have ih: "length (itoa (i div 10) k) = k \<and> (\<forall>c \<in> set (itoa (i div 10) k). is_digit c)"
      by simp
    have "itoa i wid = itoa (i div 10) k @ [digit (i mod 10)]"
      using True k by (subst itoa.simps) simp
    with ih k show ?thesis
      by (simp add: is_digit_digit del: itoa.simps)
  next
    case False
    with "1.prems" have "wid = 1" "i < 10" by simp_all
    then show ?thesis
      by (simp add: is_digit_digit)
  qed
qed

lemma matches_digits:
  "length xs = n \<Longrightarrow> (\<forall>c \<in> set xs. is_digit c) \<Longrightarrow>
     matches (digits n @ ps) (xs @ ys) = matches ps ys"
  by (induction xs arbitrary: n) (auto simp add: digits_def)

lemma matches_itoa:
  "0 < wid \<Longrightarrow> i < 10 ^ wid \<Longrightarrow> matches (digits wid @ ps) (itoa i wid @ ys) = matches ps ys"
  using itoa_fixed_width [of wid i] by (simp add: matches_digits del: itoa.simps)

lemma matches_lit: "matches (lit s @ ps) (s @ ys) = matches ps ys"
  by (induction s) (simp_all add: lit_def)

lemma Sprintln_tagged:
  "Sprintln (AString t # a) = t @ (if a = [] then [] else '' '') @ Sprintln a"
  by (cases a) (simp_all add: Sprintln_def)

text \<open>The header under the package's flags: label, date, time, microseconds.\<close>

lemma formatHeader_stamp:
  "formatHeader (log_New w p stamp_flags) t =
     p @ itoa (year t) 4 @ ''/'' @ itoa (month t) 2 @ ''/'' @ itoa (day t) 2 @ '' ''
       @ itoa (hour t) 2 @ '':'' @ itoa (minute t) 2 @ '':'' @ itoa (sec t) 2
       @ ''.'' @ itoa (nsec t div 1000) 6 @ '' ''"
  by (simp add: formatHeader_def log_New_def stamp_flags_def del: itoa.simps)

lemma fmt_int_1234: "fmt_int 1234 = ''1234''"
  by (simp add: fmt_int_def digit_numerals)

lemma Trace_nil_hello:
  "events (doPrintln now (Trace init) (format 1234 CtxNil [AString ''hello'']) init) =
     [Wrote Stdout
        ((''[trace] '' @ itoa (year now) 4 @ ''/'' @ itoa (month now) 2 @ ''/''
          @ itoa (day now) 2 @ '' '' @ itoa (hour now) 2 @ '':'' @ itoa (minute now) 2
          @ '':'' @ itoa (sec now) 2 @ ''.'' @ itoa (nsec now div 1000) 6
          @ '' [1234]  hello'') @ [newline])]"
proof -
  have l: "logger (Trace init) = log_New os_Stdout logTraceLabel stamp_flags"
    "previousIo init = None" "events init = []"
    "addr (Trace init) \<noteq> addr (Error init)" "addr (Trace init) \<noteq> addr (Warn init)"
    by (simp_all add: init_def)
  have m: "Sprintln (format 1234 CtxNil [AString ''hello'']) = ''[1234]  hello'' @ [newline]"
    by (simp add: Sprintln_def fmt_int_1234 del: dec.simps)
  have o: "Output (log_New os_Stdout logTraceLabel stamp_flags) now (''[1234]  hello'' @ [newline])
        = Wrote Stdout (formatHeader (log_New os_Stdout logTraceLabel stamp_flags) now
                          @ ''[1234]  hello'' @ [newline])"
    by (simp add: Output_def log_New_def os_Stdout_def)
  show ?thesis
    unfolding doPrintln_eq
    using l m o
    by (simp add: formatHeader_stamp logTraceLabel_def del: itoa.simps)
qed

text \<open>
  C2 (as the code has it). In the initial state, \<open>doPrintln\<close> on the Trace logger
  with what \<open>format\<close> returns for the nil context, process id 1234 and the message
  \<open>hello\<close> is one write to standard output: the label \<open>[trace] \<close> first, then date
  and time with microseconds, then the tag \<open>[1234] \<close>, a second space (the one
  \<open>Sprintln\<close> puts between operands), the message, and a newline.
\<close>

theorem Trace_line_format:
  assumes "valid_Time now"
  shows "\<exists>line. events (doPrintln now (Trace init) (format 1234 CtxNil [AString ''hello'']) init)
                 = [Wrote Stdout (line @ [newline])]
               \<and> matches code_line_pattern line"
proof -
  let ?line = "''[trace] '' @ itoa (year now) 4 @ ''/'' @ itoa (month now) 2 @ ''/''
          @ itoa (day now) 2 @ '' '' @ itoa (hour now) 2 @ '':'' @ itoa (minute now) 2
          @ '':'' @ itoa (sec now) 2 @ ''.'' @ itoa (nsec now div 1000) 6
          @ '' [1234]  hello''"
  from assms have r: "year now < 10 ^ 4" "month now < 10 ^ 2" "day now < 10 ^ 2"
    "hour now < 10 ^ 2" "minute now < 10 ^ 2" "sec now < 10 ^ 2"
    by (simp_all add: valid_Time_def)
  from assms have "nsec now < 1000000000"
    by (simp add: valid_Time_def)
  then have r6: "nsec now div 1000 < 10 ^ 6"
    by simp
  have "matches code_line_pattern ?line"
    unfolding code_line_pattern_def timestamp_pattern_def append_assoc
    using r r6
    by (simp only: matches_lit matches_itoa zero_less_numeral)
      (simp add: lit_def)
  with Trace_nil_hello [of now] show ?thesis by blast
qed

theorem Trace_line_format_witness:
  "valid_Time \<lparr>year = 2024, month = 1, day = 2, hour = 3, minute = 4, sec = 5, nsec = 6789\<rparr>
   \<and> (\<exists>line. events (doPrintln
          \<lparr>year = 2024, month = 1, day = 2, hour = 3, minute = 4, sec = 5, nsec = 6789\<rparr>
          (Trace init) (format 1234 CtxNil [AString ''hello'']) init)
                 = [Wrote Stdout (line @ [newline])]
               \<and> matches code_line_pattern line)"
proof -
  have h: "valid_Time \<lparr>year = 2024, month = 1, day = 2, hour = 3, minute = 4, sec = 5, nsec = 6789\<rparr>"
    by (simp add: valid_Time_def)
  from Trace_line_format [OF h] h show ?thesis by blast
qed

text \<open>
  The line of that print at 2024/01/02 03:04:05.006789 begins with the label, not
  with the date, and has two spaces before the message: it does not match the
  pattern of the spec, with or without its newline.
\<close>

theorem Trace_line_label_first_counterexample:
  "events (doPrintln
      \<lparr>year = 2024, month = 1, day = 2, hour = 3, minute = 4, sec = 5, nsec = 6789\<rparr>
      (Trace init) (format 1234 CtxNil [AString ''hello'']) init)
     = [Wrote Stdout ''[trace] 2024/01/02 03:04:05.000006 [1234]  hello\<newline>'']
   \<and> \<not> matches spec_line_pattern ''[trace] 2024/01/02 03:04:05.000006 [1234]  hello''
   \<and> \<not> matches spec_line_pattern ''[trace] 2024/01/02 03:04:05.000006 [1234]  hello\<newline>''"
proof -
  have "events (doPrintln
      \<lparr>year = 2024, month = 1, day = 2, hour = 3, minute = 4, sec = 5, nsec = 6789\<rparr>
      (Trace init) (format 1234 CtxNil [AString ''hello'']) init)
     = [Wrote Stdout ''[trace] 2024/01/02 03:04:05.000006 [1234]  hello\<newline>'']"
    by (simp only: Trace_nil_hello) (simp add: digit_numerals newline_def)
  moreover have "\<not> matches spec_line_pattern (CHR ''['' # s)" for s
    by (simp add: spec_line_pattern_def timestamp_pattern_def digits_def is_digit_def
        eval_nat_numeral)
  ultimately show ?thesis by simp
qed

lemma exec_labels:
  assumes "\<forall>lv. prefix (logger (channel lv st)) = label lv \<and> flag (logger (channel lv st)) = stamp_flags"
  shows "prefix (logger (channel lv (snd (exec sp c st)))) = label lv
       \<and> flag (logger (channel lv (snd (exec sp c st)))) = stamp_flags"
proof (cases c)
  case (DoPrintln l n a)
  with assms [rule_format, of lv] show ?thesis by (cases lv) (simp_all add: doPrintln_eq)
next
  case (DoPrintf l n f a)
  with assms [rule_format, of lv] show ?thesis by (cases lv) (simp_all add: doPrintf_eq)
next
  case (OpSwitch w)
  then show ?thesis by (cases lv) (simp_all add: Switch_eq log_New_def)
next
  case OpClose
  then show ?thesis by (cases lv) (simp_all add: Close_eq log_New_def)
qed

lemma run_labels:
  assumes "\<forall>lv. prefix (logger (channel lv st)) = label lv \<and> flag (logger (channel lv st)) = stamp_flags"
  shows "prefix (logger (channel lv (run sp cs st))) = label lv
       \<and> flag (logger (channel lv (run sp cs st))) = stamp_flags"
  using assms
proof (induction cs arbitrary: st)
  case Nil
  then show ?case by simp
next
  case (Cons c cs)
  have "\<forall>lv. prefix (logger (channel lv (snd (exec sp c st)))) = label lv
            \<and> flag (logger (channel lv (snd (exec sp c st)))) = stamp_flags"
    using exec_labels [OF Cons.prems] by blast
  from Cons.IH [OF this] show ?case by simp
qed

lemma init_labels:
  "prefix (logger (channel lv init)) = label lv \<and> flag (logger (channel lv init)) = stamp_flags"
  by (cases lv) (simp_all add: init_def log_New_def)

section \<open>The tag of a line\<close>

text \<open>
  C7 (as the code has it). In every state reached from the initial one and on every
  level, the logger has the level's label and the date, time and microsecond flags,
  and \<open>doPrintln\<close> on what \<open>format\<close> returns is one write of its line, between
  the two color sequences where \<open>doPrintln\<close> adds them. With the nil context the
  line is the header, the tag \<open>[pid] \<close> with no correlation id, and the arguments
  as \<open>Sprintln\<close> renders them (after a space, if there are any). With a context that is present and has no
  \<open>Cid()\<close> the line is the header and the arguments: no tag is added.
\<close>

theorem nil_context_tag:
  "(let st = run sp cs init; l = logger (channel lv st) in
      prefix l = label lv \<and> flag l = stamp_flags
    \<and> Output l now (Sprintln (format pid CtxNil a)) =
        Wrote (stream (out l))
          (formatHeader l now @ ''['' @ fmt_int pid @ ''] ''
             @ (if a = [] then [] else '' '') @ Sprintln a)
    \<and> Output l now (Sprintln (format pid (CtxOther x) a)) =
        Wrote (stream (out l)) (formatHeader l now @ Sprintln a)
    \<and> events (doPrintln now (channel lv st) (format pid ctx a) st) =
        events st @
          (if previousIo st = None \<and> lv = LError
           then [Wrote Stdout colorRed, Output l now (Sprintln (format pid ctx a)),
                 Wrote Stdout colorBlack]
           else if previousIo st = None \<and> lv = LWarn
           then [Wrote Stdout colorYellow, Output l now (Sprintln (format pid ctx a)),
                 Wrote Stdout colorBlack]
           else [Output l now (Sprintln (format pid ctx a))]))"
proof -
  let ?st = "run sp cs init"
  let ?l = "logger (channel lv ?st)"
  have lab: "prefix ?l = label lv \<and> flag ?l = stamp_flags"
    by (rule run_labels) (simp add: init_labels)
  have d: "distinct_channels ?st"
    by (rule distinct_channels_run) (rule distinct_channels_init)
  have nil: "Output ?l now (Sprintln (format pid CtxNil a)) =
        Wrote (stream (out ?l))
          (formatHeader ?l now @ ''['' @ fmt_int pid @ ''] ''
             @ (if a = [] then [] else '' '') @ Sprintln a)"
    by (simp only: Output_Sprintln) (simp add: Sprintln_tagged)
  have other: "Output ?l now (Sprintln (format pid (CtxOther x) a)) =
        Wrote (stream (out ?l)) (formatHeader ?l now @ Sprintln a)"
    by (simp add: Output_Sprintln)
  show ?thesis
    unfolding Let_def
    using lab nil other doPrintln_channel [OF d, of now lv "format pid ctx a"]
    by blast
qed

theorem nil_context_tag_witness:
  "events (doPrintln
      \<lparr>year = 2024, month = 1, day = 2, hour = 3, minute = 4, sec = 5, nsec = 6789\<rparr>
      (Warn (run (\<lambda>f a. f) [OpClose] init)) (format 1234 CtxNil [AString ''x'', AInt 7])
      (run (\<lambda>f a. f) [OpClose] init))
   = [Wrote Stdout colorYellow,
      Wrote Discard ''[warn] 2024/01/02 03:04:05.000006 [1234]  x 7\<newline>'',
      Wrote Stdout colorBlack]"
proof -
  let ?t = "\<lparr>year = 2024, month = 1, day = 2, hour = 3, minute = 4, sec = 5, nsec = 6789\<rparr>"
  let ?st = "run (\<lambda>f a. f) [OpClose] init"
  have s: "previousIo ?st = None" "events ?st = []"
    "logger (Warn ?st) = log_New ioutil_Discard logWarnLabel stamp_flags"
    by (simp_all add: Close_eq init_def)
  have h: "formatHeader (log_New ioutil_Discard logWarnLabel stamp_flags) ?t
           = ''[warn] 2024/01/02 03:04:05.000006 ''"
    by (simp add: formatHeader_stamp logWarnLabel_def digit_numerals)
  have m: "''['' @ fmt_int 1234 @ ''] '' @ '' '' @ Sprintln [AString ''x'', AInt 7]
           = ''[1234]  x 7\<newline>''"
    by (simp add: Sprintln_def fmt_int_def digit_numerals newline_def)
  from nil_context_tag [where sp = "\<lambda>f a. f" and cs = "[OpClose]" and lv = LWarn and now = ?t
      and pid = 1234 and a = "[AString ''x'', AInt 7]" and ctx = CtxNil]
  have "events (doPrintln ?t (Warn ?st) (format 1234 CtxNil [AString ''x'', AInt 7]) ?st)
        = [Wrote Stdout colorYellow,
           Wrote Discard (formatHeader (log_New ioutil_Discard logWarnLabel stamp_flags) ?t
              @ ''['' @ fmt_int 1234 @ ''] '' @ '' '' @ Sprintln [AString ''x'', AInt 7]),
           Wrote Stdout colorBlack]"
    unfolding Let_def using s
    by (simp add: ioutil_Discard_def log_New_def del: Sprintf_v.simps format.simps)
  then show ?thesis
    unfolding h m by simp
qed

text \<open>
  A context that is present and has no \<open>Cid()\<close> lacks the correlation capability,
  and the line of a print with it has no tag at all: here the process id 1234
  does not occur in it.
\<close>

theorem untagged_context_counterexample:
  "events (doPrintln
      \<lparr>year = 2024, month = 1, day = 2, hour = 3, minute = 4, sec = 5, nsec = 6789\<rparr>
      (Trace init) (format 1234 (CtxOther (AInt 0)) [AString ''hello'']) init)
     = [Wrote Stdout ''[trace] 2024/01/02 03:04:05.000006 hello\<newline>'']
   \<and> \<not> contains ''[1234] '' ''[trace] 2024/01/02 03:04:05.000006 hello\<newline>''"
proof -
  have l: "logger (Trace init) = log_New os_Stdout logTraceLabel stamp_flags"
    "previousIo init = None" "events init = []"
    "addr (Trace init) \<noteq> addr (Error init)" "addr (Trace init) \<noteq> addr (Warn init)"
    by (simp_all add: init_def)
  have h: "formatHeader (log_New os_Stdout logTraceLabel stamp_flags)
             \<lparr>year = 2024, month = 1, day = 2, hour = 3, minute = 4, sec = 5, nsec = 6789\<rparr>
           = ''[trace] 2024/01/02 03:04:05.000006 ''"
    by (simp add: formatHeader_stamp logTraceLabel_def digit_numerals)
  have e: "events (doPrintln
      \<lparr>year = 2024, month = 1, day = 2, hour = 3, minute = 4, sec = 5, nsec = 6789\<rparr>
      (Trace init) (format 1234 (CtxOther (AInt 0)) [AString ''hello'']) init)
     = [Wrote Stdout ''[trace] 2024/01/02 03:04:05.000006 hello\<newline>'']"
    unfolding doPrintln_eq Output_Sprintln
    using l h by (simp add: Sprintln_def newline_def os_Stdout_def log_New_def)
  have c: "\<not> contains ''[1234] '' ''[trace] 2024/01/02 03:04:05.000006 hello\<newline>''"
    by simp
  from e c show ?thesis by blast
qed

end
